theory Spec2Isabelle
  imports Complex_Main "HOL-Library.Sublist" "HOL-Library.Word"
begin

section \<open>Strings of the host language\<close>

text \<open>
  The texts that are lower-cased for the search (names, user names, the search text) are
  lists of UTF-16 code units, as a string of the host is. The case mappings
  \<open>String.prototype.toLowerCase\<close> and \<open>String.prototype.toUpperCase\<close> belong to
  the host and not to the program: every function that calls one of them takes it as its
  first argument, and what is proved holds for every such mapping. Identifiers, type
  tags and the other text, which the program compares, concatenates and stores, are of
  type \<^typ>\<open>string\<close>.
\<close>

type_synonym code_unit = "16 word"

type_synonym js_string = "code_unit list"


section \<open>The access panel (manage-access-panel.tsx)\<close>

text \<open>
  Modelled from the spec: the types \<open>User\<close> and \<open>Page\<close> are imported from
  \<open>@/lib/auth\<close>, which is not among the sources. The panel reads the fields
  \<open>id\<close>, \<open>name\<close>, \<open>username\<close>, \<open>role\<close> and the optional \<open>assignedPages\<close> of a
  user; the role is one of \<open>"user"\<close>, \<open>"admin"\<close>, \<open>"developer"\<close>.
\<close>

datatype role = RoleUser | Admin | Developer

text \<open>The role filter of the panel: \<open>"all" | "user" | "admin" | "developer"\<close>.\<close>

datatype role_filter = AllRoles | Only role

record user =
  user_id :: string
  name :: js_string
  username :: js_string
  role :: role
  assignedPages :: "string list option"

text \<open>The state of the component: \<open>users\<close>, \<open>searchTerm\<close>, \<open>filterRole\<close>, \<open>loading\<close>.\<close>

record panel =
  users :: "user list"
  searchTerm :: js_string
  filterRole :: role_filter
  loading :: bool

text \<open>What a handler does to the outside: the calls it makes, in order.\<close>

datatype effect =
    AssignPagesToUser string "string list"
  | OnSuccess
  | ConsoleError




text \<open>\<open>user.assignedPages || []\<close>\<close>

definition pagesOf :: "user \<Rightarrow> string list" where
  "pagesOf u = (case assignedPages u of None \<Rightarrow> [] | Some ps \<Rightarrow> ps)"

text \<open>
  \<open>handleToggleAccess\<close>. The call of \<open>assignPagesToUser\<close> leaves the component; the
  first argument says whether that call throws. A throw is caught: it skips the update of
  the local list and the \<open>onSuccess\<close> notification, and is written to the console. The
  \<open>finally\<close> block resets \<open>loading\<close> on every path.
\<close>

definition handleToggleAccess :: "bool \<Rightarrow> panel \<Rightarrow> string \<Rightarrow> string \<Rightarrow> panel \<times> effect list" where
  "handleToggleAccess assignThrows st userId pageId =
     (case find (\<lambda>u. user_id u = userId) (users st) of
        None \<Rightarrow> (st\<lparr>loading := False\<rparr>, [])
      | Some u \<Rightarrow>
          (let currentPages = pagesOf u;
               hasAccess = (pageId \<in> set currentPages);
               newPages = (if hasAccess then filter (\<lambda>i. i \<noteq> pageId) currentPages
                           else currentPages @ [pageId])
           in if assignThrows
              then (st\<lparr>loading := False\<rparr>, [AssignPagesToUser userId newPages, ConsoleError])
              else (st\<lparr>users := map (\<lambda>v. if user_id v = userId
                                          then v\<lparr>assignedPages := Some newPages\<rparr> else v)
                                    (users st),
                       loading := False\<rparr>,
                    [AssignPagesToUser userId newPages, OnSuccess])))"

definition getUserPageAccess :: "panel \<Rightarrow> string \<Rightarrow> string \<Rightarrow> bool" where
  "getUserPageAccess st userId pageId =
     (case find (\<lambda>u. user_id u = userId) (users st) of
        None \<Rightarrow> False
      | Some u \<Rightarrow>
          if role u = Admin \<or> role u = Developer then True
          else (case assignedPages u of None \<Rightarrow> False | Some ps \<Rightarrow> pageId \<in> set ps))"

text \<open>
  The cell of the matrix for a user and a page: the button is disabled for an admin or a
  developer and while \<open>loading\<close>, and its click handler calls \<open>handleToggleAccess\<close>
  only when \<open>isDisabled\<close> is false. A disabled button receives no click.
\<close>

definition isDisabled :: "user \<Rightarrow> bool" where
  "isDisabled u = (role u = Admin \<or> role u = Developer)"

definition onClick :: "bool \<Rightarrow> panel \<Rightarrow> user \<Rightarrow> string \<Rightarrow> panel \<times> effect list" where
  "onClick assignThrows st u pageId =
     (if isDisabled u then (st, []) else handleToggleAccess assignThrows st (user_id u) pageId)"

definition clickCell :: "bool \<Rightarrow> panel \<Rightarrow> user \<Rightarrow> string \<Rightarrow> panel \<times> effect list" where
  "clickCell assignThrows st u pageId =
     (if isDisabled u \<or> loading st then (st, []) else onClick assignThrows st u pageId)"

section \<open>The live page editor (live-page-editor.tsx)\<close>

text \<open>
  Numbers are \<^typ>\<open>real\<close>: the editor only stores and compares them. The style bag
  \<open>Record<string, any>\<close> is a list of properties with their values.
\<close>

record page_component =
  comp_id :: string
  comp_type :: string
  comp_x :: real
  comp_y :: real
  width :: real
  height :: real
  content :: string
  style :: "(string \<times> string) list"
  embedUrl :: "string option"
  htmlContent :: "string option"

text \<open>
  \<open>Partial<PageComponent>\<close>: every field may be absent (\<open>None\<close>). The two optional
  fields of a component may also be present with the value \<open>undefined\<close>.
\<close>

record partial_component =
  new_id :: "string option"
  new_type :: "string option"
  new_x :: "real option"
  new_y :: "real option"
  new_width :: "real option"
  new_height :: "real option"
  new_content :: "string option"
  new_style :: "(string \<times> string) list option"
  new_embedUrl :: "string option option"
  new_htmlContent :: "string option option"

text \<open>
  Modelled from the spec: the type \<open>Page\<close> of \<open>@/lib/auth\<close> is not among the
  sources. The editor reads \<open>title\<close>, \<open>type\<close>, \<open>embedUrl\<close> and \<open>htmlContent\<close>
  of its page and the id of its user.
\<close>

record page =
  title :: string
  page_type :: string
  page_embedUrl :: "string option"
  page_htmlContent :: "string option"

record props =
  prop_user_id :: string
  prop_page :: page

datatype save_status = Saved | Saving | Unsaved

text \<open>
  The state of the editor. \<open>timer\<close> is the pending \<open>setTimeout\<close> of the auto-save
  effect, with the milliseconds left until it fires; \<open>activity\<close> collects the calls of
  \<open>logActivity\<close> (user id, action, detail).
\<close>

record editor =
  components :: "page_component list"
  selectedComponent :: "string option"
  isPreviewMode :: bool
  saveStatus :: save_status
  timer :: "nat option"
  activity :: "(string \<times> string \<times> string) list"

text \<open>\<open>Date.now().toString()\<close>: the decimal digits of a count of milliseconds.\<close>

definition digitChar :: "nat \<Rightarrow> char" where
  "digitChar d = ''0123456789'' ! d"

fun toString :: "nat \<Rightarrow> string" where
  "toString n = (if n < 10 then [digitChar n] else toString (n div 10) @ [digitChar (n mod 10)])"

declare toString.simps [simp del]

text \<open>A string used as a condition is true when it is defined and not empty.\<close>

definition truthy :: "string option \<Rightarrow> bool" where
  "truthy s = (case s of None \<Rightarrow> False | Some v \<Rightarrow> v \<noteq> [])"

definition styleOf :: "string \<Rightarrow> (string \<times> string) list" where
  "styleOf bg =
     [(''backgroundColor'', bg), (''color'', ''white''), (''borderRadius'', ''12px''),
      (''padding'', ''16px''), (''border'', ''1px solid #e5e7eb'')]"

text \<open>
  The first effect: the components a page starts with, one object literal for each of
  the page types \<open>powerbi\<close>, \<open>spreadsheet\<close> and \<open>html\<close>.
\<close>

definition mainComponent ::
  "string \<Rightarrow> string \<Rightarrow> string \<Rightarrow> page \<Rightarrow> string option \<Rightarrow> string option \<Rightarrow> page_component" where
  "mainComponent ident ty bg p url html =
     \<lparr>comp_id = ident, comp_type = ty, comp_x = 50, comp_y = 50,
      width = 600, height = 400, content = title p, style = styleOf bg,
      embedUrl = url, htmlContent = html\<rparr>"

definition defaultComponents :: "page \<Rightarrow> page_component list" where
  "defaultComponents p =
     (if page_type p = ''powerbi'' \<and> truthy (page_embedUrl p)
      then [mainComponent ''powerbi-main'' ''powerbi'' ''#0078d4'' p (page_embedUrl p) None]
      else []) @
     (if page_type p = ''spreadsheet'' \<and> truthy (page_embedUrl p)
      then [mainComponent ''spreadsheet-main'' ''spreadsheet'' ''#107c41'' p (page_embedUrl p) None]
      else []) @
     (if page_type p = ''html'' \<and> truthy (page_htmlContent p)
      then [mainComponent ''html-main'' ''html'' ''#6b46c1'' p None (page_htmlContent p)]
      else [])"

definition initEditor :: "page \<Rightarrow> editor" where
  "initEditor p =
     \<lparr>components = defaultComponents p, selectedComponent = None, isPreviewMode = False,
      saveStatus = Saved, timer = None, activity = []\<rparr>"

text \<open>
  The auto-save effect, run after a render in which \<open>components\<close> or \<open>saveStatus\<close>
  changed: first the cleanup of its previous run (\<open>clearTimeout\<close>), then its body.
\<close>

definition autoSaveEffect :: "editor \<Rightarrow> editor" where
  "autoSaveEffect st =
     (let s0 = st\<lparr>timer := None\<rparr>
      in if length (components s0) > 0 \<and> saveStatus s0 = Unsaved
         then s0\<lparr>saveStatus := Saving, timer := Some 1000\<rparr>
         else s0)"

definition handleAutoSave :: "props \<Rightarrow> editor \<Rightarrow> editor" where
  "handleAutoSave pr st =
     st\<lparr>saveStatus := Saved,
        activity := activity st @
          [(prop_user_id pr, ''live_edit_save'',
            ''Auto-saved changes to '' @ title (prop_page pr))]\<rparr>"

text \<open>
  \<open>type.charAt(0).toUpperCase() + type.slice(1)\<close>: the first character, or the
  empty string when there is none, goes through the host's \<open>toUpperCase\<close>.
\<close>

definition capitalize :: "(string \<Rightarrow> string) \<Rightarrow> string \<Rightarrow> string" where
  "capitalize toUpperCase t = toUpperCase (take 1 t) @ drop 1 t"

text \<open>
  \<open>addComponent\<close>. \<open>now\<close> is the value of \<open>Date.now()\<close>; \<open>r1\<close> and \<open>r2\<close> are the
  two values of \<open>Math.random()\<close>.
\<close>

definition addComponent ::
  "(string \<Rightarrow> string) \<Rightarrow> props \<Rightarrow> nat \<Rightarrow> real \<Rightarrow> real \<Rightarrow> string \<Rightarrow> editor \<Rightarrow> editor" where
  "addComponent toUpperCase pr now r1 r2 ty st =
     (let newComponent =
            \<lparr>comp_id = toString now,
             comp_type = ty,
             comp_x = r1 * 300 + 50,
             comp_y = r2 * 200 + 50,
             width = (if ty = ''button'' then 120 else if ty = ''text'' then 200 else 300),
             height = (if ty = ''button'' then 40 else if ty = ''text'' then 60 else 200),
             content = capitalize toUpperCase ty @ '' Component'',
             style = styleOf
               (if ty = ''powerbi'' then ''#0078d4''
                else if ty = ''spreadsheet'' then ''#107c41''
                else if ty = ''html'' then ''#6b46c1''
                else if ty = ''image'' then ''#f59e0b''
                else if ty = ''button'' then ''#3b82f6''
                else ''#6b7280''),
             embedUrl = None,
             htmlContent = None\<rparr>
      in st\<lparr>components := components st @ [newComponent],
            saveStatus := Unsaved,
            activity := activity st @
              [(prop_user_id pr, ''live_edit_add'',
                ''Added '' @ ty @ '' component to '' @ title (prop_page pr))]\<rparr>)"

text \<open>\<open>{ ...comp, ...updates }\<close>: a field of \<open>updates\<close> that is present wins.\<close>

fun orElse :: "'a option \<Rightarrow> 'a \<Rightarrow> 'a" where
  "orElse None d = d"
| "orElse (Some v) d = v"

definition merge :: "page_component \<Rightarrow> partial_component \<Rightarrow> page_component" where
  "merge c p =
     \<lparr>comp_id = orElse (new_id p) (comp_id c),
      comp_type = orElse (new_type p) (comp_type c),
      comp_x = orElse (new_x p) (comp_x c),
      comp_y = orElse (new_y p) (comp_y c),
      width = orElse (new_width p) (width c),
      height = orElse (new_height p) (height c),
      content = orElse (new_content p) (content c),
      style = orElse (new_style p) (style c),
      embedUrl = orElse (new_embedUrl p) (embedUrl c),
      htmlContent = orElse (new_htmlContent p) (htmlContent c)\<rparr>"

definition updateComponent :: "string \<Rightarrow> partial_component \<Rightarrow> editor \<Rightarrow> editor" where
  "updateComponent i p st =
     st\<lparr>components := map (\<lambda>comp. if comp_id comp = i then merge comp p else comp) (components st),
        saveStatus := Unsaved\<rparr>"

definition deleteComponent :: "props \<Rightarrow> string \<Rightarrow> editor \<Rightarrow> editor" where
  "deleteComponent pr i st =
     st\<lparr>components := filter (\<lambda>comp. comp_id comp \<noteq> i) (components st),
        selectedComponent := None,
        saveStatus := Unsaved,
        activity := activity st @
          [(prop_user_id pr, ''live_edit_delete'',
            ''Deleted component from '' @ title (prop_page pr))]\<rparr>"

text \<open>
  What happens to the editor: one of the three mutations, or time passing. When the
  timer is due, \<open>handleAutoSave\<close> runs.
\<close>

datatype event =
    Add nat real real string
  | Update string partial_component
  | Delete string
  | Elapse nat

fun handle :: "(string \<Rightarrow> string) \<Rightarrow> props \<Rightarrow> event \<Rightarrow> editor \<Rightarrow> editor" where
  "handle toUpperCase pr (Add now r1 r2 ty) st = addComponent toUpperCase pr now r1 r2 ty st"
| "handle toUpperCase pr (Update i p) st = updateComponent i p st"
| "handle toUpperCase pr (Delete i) st = deleteComponent pr i st"
| "handle toUpperCase pr (Elapse n) st =
     (case timer st of
        None \<Rightarrow> st
      | Some t \<Rightarrow> if t \<le> n then handleAutoSave pr (st\<lparr>timer := None\<rparr>)
                  else st\<lparr>timer := Some (t - n)\<rparr>)"

text \<open>The three mutations, as opposed to time passing.\<close>

fun isMutation :: "event \<Rightarrow> bool" where
  "isMutation (Elapse n) = False"
| "isMutation ev = True"

text \<open>
  After a handler the component renders and its effect runs; when the effect changed
  \<open>saveStatus\<close>, the component renders once more and the effect runs again (its second
  run changes neither dependency). A mutation always replaces the array \<open>components\<close>,
  so the effect runs after every mutation; after \<open>Elapse\<close> it runs when the status
  changed.
\<close>

definition settle :: "editor \<Rightarrow> editor" where
  "settle st =
     (let s1 = autoSaveEffect st
      in if saveStatus s1 = saveStatus st then s1 else autoSaveEffect s1)"

fun dispatch :: "(string \<Rightarrow> string) \<Rightarrow> props \<Rightarrow> event \<Rightarrow> editor \<Rightarrow> editor" where
  "dispatch toUpperCase pr (Elapse n) st =
     (let s1 = handle toUpperCase pr (Elapse n) st
      in if saveStatus s1 = saveStatus st then s1 else settle s1)"
| "dispatch toUpperCase pr ev st = settle (handle toUpperCase pr ev st)"

text \<open>
  The values of \<open>saveStatus\<close> seen while a list of events is handled: for every event
  the value the handler leaves and the value after the effect has run.
\<close>

fun statusTrace ::
  "(string \<Rightarrow> string) \<Rightarrow> props \<Rightarrow> editor \<Rightarrow> event list \<Rightarrow> save_status list" where
  "statusTrace toUpperCase pr st [] = []"
| "statusTrace toUpperCase pr st (ev # evs) =
     saveStatus (handle toUpperCase pr ev st) # saveStatus (dispatch toUpperCase pr ev st)
       # statusTrace toUpperCase pr (dispatch toUpperCase pr ev st) evs"

text \<open>How often a list of status values moves into a given status from another one.\<close>

fun transitionsInto :: "save_status \<Rightarrow> save_status list \<Rightarrow> nat" where
  "transitionsInto s (a # b # rest) =
     (if a \<noteq> s \<and> b = s then 1 else 0) + transitionsInto s (b # rest)"
| "transitionsInto s [a] = 0"
| "transitionsInto s [] = 0"

section \<open>Example states\<close>

text \<open>
  ASCII text as code units, and two case mappings to evaluate with: they map the letters
  A to Z and a to z and leave everything else as it is.
\<close>

definition str :: "string \<Rightarrow> js_string" where
  "str s = map of_char s"


definition exampleUpper :: "string \<Rightarrow> string" where
  "exampleUpper s =
     map (\<lambda>c. case map_of (zip ''abcdefghijklmnopqrstuvwxyz'' ''ABCDEFGHIJKLMNOPQRSTUVWXYZ'') c of
                None \<Rightarrow> c
              | Some d \<Rightarrow> d) s"

text \<open>A listing with one user of each role, used to evaluate the operations.\<close>

definition alice :: user where
  "alice = \<lparr>user_id = ''u1'', name = str ''Alice Hann'', username = str ''alice'', role = RoleUser,
            assignedPages = Some [''p1'']\<rparr>"

definition rootUser :: user where
  "rootUser = \<lparr>user_id = ''a1'', name = str ''Root'', username = str ''root'', role = Admin,
           assignedPages = None\<rparr>"

definition dana :: user where
  "dana = \<lparr>user_id = ''d1'', name = str ''Dana'', username = str ''JOANNE'', role = Developer,
           assignedPages = Some [''p3'']\<rparr>"

definition examplePanel :: panel where
  "examplePanel = \<lparr>users = [alice, rootUser, dana], searchTerm = str ''ann'', filterRole = AllRoles,
                   loading = False\<rparr>"

text \<open>A page with one embedded report, its editor, and an update of one field.\<close>

definition examplePage :: page where
  "examplePage = \<lparr>title = ''Sales'', page_type = ''powerbi'',
                  page_embedUrl = Some ''https://example.org/report'',
                  page_htmlContent = None\<rparr>"

definition exampleProps :: props where
  "exampleProps = \<lparr>prop_user_id = ''u1'', prop_page = examplePage\<rparr>"

definition exampleEditor :: editor where
  "exampleEditor = initEditor examplePage"

definition exampleUpdate :: partial_component where
  "exampleUpdate =
     \<lparr>new_id = None, new_type = None, new_x = None, new_y = None, new_width = Some 10,
      new_height = None, new_content = None, new_style = None, new_embedUrl = None,
      new_htmlContent = None\<rparr>"

section \<open>Looking a user up by id\<close>

lemma find_user_distinct:
  assumes "u \<in> set us" and "distinct (map user_id us)"
  shows "find (\<lambda>v. user_id v = user_id u) us = Some u"
  using assms
proof (induction us)
  case Nil
  then show ?case by simp
next
  case (Cons a us)
  show ?case
  proof (cases "a = u")
    case True
    then show ?thesis by simp
  next
    case False
    with Cons.prems have mem: "u \<in> set us" and notin: "user_id a \<notin> user_id ` set us"
      and dist: "distinct (map user_id us)"
      by auto
    from mem notin have "user_id a \<noteq> user_id u" by auto
    with Cons.IH [OF mem dist] show ?thesis by simp
  qed
qed

lemma find_user_absent:
  "userId \<notin> user_id ` set us \<Longrightarrow> find (\<lambda>v. user_id v = userId) us = None"
  by (induction us) auto

section \<open>Access of a user to a page\<close>

lemma getUserPageAccess_found:
  assumes "find (\<lambda>v. user_id v = userId) (users st) = Some u"
  shows "getUserPageAccess st userId pageId
           = (role u = Admin \<or> role u = Developer \<or> pageId \<in> set (pagesOf u))"
  using assms by (cases "assignedPages u") (auto simp: getUserPageAccess_def pagesOf_def)

lemma getUserPageAccess_absent:
  "userId \<notin> user_id ` set (users st) \<Longrightarrow> getUserPageAccess st userId pageId = False"
  by (simp add: getUserPageAccess_def find_user_absent)

text \<open>
  C1. For a user of the listing (users are told apart by their ids) and any page id,
  \<open>getUserPageAccess\<close> is true exactly when the role is admin or developer or the page
  id is among the user's assigned pages. So it is true for every admin and developer
  whatever the assigned pages are, and for the role \<open>user\<close> it is the membership test.
\<close>

theorem getUserPageAccess_correct:
  assumes "u \<in> set (users st)" and "distinct (map user_id (users st))"
  shows "getUserPageAccess st (user_id u) pageId
           = (role u = Admin \<or> role u = Developer \<or> pageId \<in> set (pagesOf u))
         \<and> (role u \<in> {Admin, Developer} \<longrightarrow> getUserPageAccess st (user_id u) pageId)
         \<and> (role u = RoleUser \<longrightarrow>
              getUserPageAccess st (user_id u) pageId = (pageId \<in> set (pagesOf u)))"
proof -
  have f: "find (\<lambda>v. user_id v = user_id u) (users st) = Some u"
    using assms by (rule find_user_distinct)
  show ?thesis
    unfolding getUserPageAccess_found [OF f] by auto
qed

theorem getUserPageAccess_correct_witness:
  "getUserPageAccess examplePanel ''a1'' ''p9''
   \<and> getUserPageAccess examplePanel ''u1'' ''p1''
   \<and> \<not> getUserPageAccess examplePanel ''u1'' ''p2''"
proof -
  have d: "distinct (map user_id (users examplePanel))"
    by (simp add: examplePanel_def alice_def rootUser_def dana_def)
  have a: "rootUser \<in> set (users examplePanel)" and b: "alice \<in> set (users examplePanel)"
    by (simp_all add: examplePanel_def)
  show ?thesis
    using getUserPageAccess_correct [OF a d, of "''p9''"]
      getUserPageAccess_correct [OF b d, of "''p1''"]
      getUserPageAccess_correct [OF b d, of "''p2''"]
    by (simp add: alice_def rootUser_def pagesOf_def)
qed

section \<open>Toggling the access of a user to a page\<close>

lemma find_map_assigned:
  "find (\<lambda>v. user_id v = i)
        (map (\<lambda>v. if user_id v = i then v\<lparr>assignedPages := ps\<rparr> else v) us)
     = map_option (\<lambda>v. v\<lparr>assignedPages := ps\<rparr>) (find (\<lambda>v. user_id v = i) us)"
  by (induction us) auto

lemma handleToggleAccess_found:
  assumes "find (\<lambda>v. user_id v = userId) (users st) = Some u"
  shows "handleToggleAccess False st userId pageId =
           (st\<lparr>users := map (\<lambda>v. if user_id v = userId
                                  then v\<lparr>assignedPages :=
                                         Some (if pageId \<in> set (pagesOf u)
                                               then filter (\<lambda>i. i \<noteq> pageId) (pagesOf u)
                                               else pagesOf u @ [pageId])\<rparr>
                                  else v) (users st),
               loading := False\<rparr>,
            [AssignPagesToUser userId
               (if pageId \<in> set (pagesOf u) then filter (\<lambda>i. i \<noteq> pageId) (pagesOf u)
                else pagesOf u @ [pageId]),
             OnSuccess])"
  using assms by (simp add: handleToggleAccess_def Let_def)

lemma handleToggleAccess_throws:
  assumes "find (\<lambda>v. user_id v = userId) (users st) = Some u"
  shows "fst (handleToggleAccess True st userId pageId) = st\<lparr>loading := False\<rparr>"
  using assms by (simp add: handleToggleAccess_def Let_def)

text \<open>
  C8. When no user of the listing has the given id, \<open>handleToggleAccess\<close> returns
  normally without calling anything outside and without writing an error: the list of
  users, with every set of assigned pages, is as before.
\<close>

theorem handleToggleAccess_unknown_user:
  assumes "userId \<notin> user_id ` set (users st)"
  shows "handleToggleAccess assignThrows st userId pageId = (st\<lparr>loading := False\<rparr>, [])
         \<and> users (fst (handleToggleAccess assignThrows st userId pageId)) = users st"
  using assms by (simp add: handleToggleAccess_def find_user_absent)

theorem handleToggleAccess_unknown_user_witness:
  "handleToggleAccess False examplePanel ''zz'' ''p1'' = (examplePanel, [])
   \<and> users (fst (handleToggleAccess True examplePanel ''zz'' ''p1'')) = [alice, rootUser, dana]"
proof -
  have n: "''zz'' \<notin> user_id ` set (users examplePanel)"
    by (simp add: examplePanel_def alice_def rootUser_def dana_def)
  show ?thesis
    using handleToggleAccess_unknown_user [OF n, of False "''p1''"]
      handleToggleAccess_unknown_user [OF n, of True "''p1''"]
    by (simp add: examplePanel_def)
qed


text \<open>
  C2, as the code has it. The cell calls \<open>handleToggleAccess\<close> only for a user
  whose role is \<open>user\<close>. For such a user of the listing (ids distinct) and every
  page, when the external assignment call returns normally: the page id is removed from
  the user's assigned pages when \<open>getUserPageAccess\<close> is true for the user and the
  page, and appended at the end otherwise; all other users, and the length of the
  listing, stay as they are. When the external call throws, the error is caught and the
  listing is not changed at all.
\<close>

theorem handleToggleAccess_toggles:
  assumes "u \<in> set (users st)" and "distinct (map user_id (users st))"
    and "role u = RoleUser"
  shows "onClick False st u pageId = handleToggleAccess False st (user_id u) pageId
         \<and> find (\<lambda>v. user_id v = user_id u)
              (users (fst (handleToggleAccess False st (user_id u) pageId)))
           = Some (u\<lparr>assignedPages :=
                      Some (if getUserPageAccess st (user_id u) pageId
                            then filter (\<lambda>i. i \<noteq> pageId) (pagesOf u)
                            else pagesOf u @ [pageId])\<rparr>)
         \<and> length (users (fst (handleToggleAccess False st (user_id u) pageId)))
             = length (users st)
         \<and> (\<forall>k < length (users st). user_id (users st ! k) \<noteq> user_id u \<longrightarrow>
              users (fst (handleToggleAccess False st (user_id u) pageId)) ! k = users st ! k)
         \<and> users (fst (handleToggleAccess True st (user_id u) pageId)) = users st"
proof -
  have f: "find (\<lambda>v. user_id v = user_id u) (users st) = Some u"
    using assms(1,2) by (rule find_user_distinct)
  have acc: "getUserPageAccess st (user_id u) pageId = (pageId \<in> set (pagesOf u))"
    unfolding getUserPageAccess_found [OF f] using assms(3) by simp
  have c: "onClick False st u pageId = handleToggleAccess False st (user_id u) pageId"
    using assms(3) by (simp add: onClick_def isDisabled_def)
  have t: "users (fst (handleToggleAccess True st (user_id u) pageId)) = users st"
    unfolding handleToggleAccess_throws [OF f] by simp
  show ?thesis
    unfolding acc handleToggleAccess_found [OF f]
    using c [unfolded handleToggleAccess_found [OF f]] t
    by (simp add: find_map_assigned f)
qed

theorem handleToggleAccess_toggles_witness:
  "find (\<lambda>v. user_id v = ''u1'')
        (users (fst (handleToggleAccess False examplePanel ''u1'' ''p2'')))
     = Some (alice\<lparr>assignedPages := Some [''p1'', ''p2'']\<rparr>)
   \<and> find (\<lambda>v. user_id v = ''u1'')
        (users (fst (handleToggleAccess False examplePanel ''u1'' ''p1'')))
     = Some (alice\<lparr>assignedPages := Some []\<rparr>)
   \<and> users (fst (handleToggleAccess False examplePanel ''u1'' ''p2'')) ! 1 = rootUser"
proof -
  have d: "distinct (map user_id (users examplePanel))"
    by (simp add: examplePanel_def alice_def rootUser_def dana_def)
  have b: "alice \<in> set (users examplePanel)"
    by (simp add: examplePanel_def)
  have k: "(1::nat) < length (users examplePanel)"
    and o: "user_id (users examplePanel ! 1) \<noteq> user_id alice"
    and z: "users examplePanel ! 1 = rootUser"
    by (simp_all add: examplePanel_def alice_def rootUser_def)
  have r: "role alice = RoleUser" and i: "user_id alice = ''u1''"
    and ps: "pagesOf alice = [''p1'']"
    by (simp_all add: alice_def pagesOf_def)
  have f: "find (\<lambda>v. user_id v = ''u1'') (users examplePanel) = Some alice"
    by (simp add: examplePanel_def alice_def)
  have a1: "getUserPageAccess examplePanel ''u1'' ''p1''"
    and a2: "\<not> getUserPageAccess examplePanel ''u1'' ''p2''"
    unfolding getUserPageAccess_found [OF f] by (simp_all add: r ps)
  from handleToggleAccess_toggles [OF b d r, of "''p2''"]
    handleToggleAccess_toggles [OF b d r, of "''p1''"] k o z a1 a2
  show ?thesis
    unfolding i ps by simp
qed

text \<open>
  The claim C2 as it is written fails when the external assignment call throws: for a
  user of role \<open>user\<close> without access to the page, the page is not appended.
\<close>

theorem handleToggleAccess_throw_counterexample:
  "role alice = RoleUser
   \<and> \<not> getUserPageAccess examplePanel ''u1'' ''p2''
   \<and> handleToggleAccess True examplePanel ''u1'' ''p2''
       = (examplePanel, [AssignPagesToUser ''u1'' [''p1'', ''p2''], ConsoleError])
   \<and> pagesOf (users examplePanel ! 0) = [''p1'']"
  by (simp add: getUserPageAccess_def handleToggleAccess_def Let_def pagesOf_def
      examplePanel_def alice_def rootUser_def dana_def)




lemma handleToggleAccess_twice_order:
  "users (fst (handleToggleAccess False
       (fst (handleToggleAccess False
          \<lparr>users = [alice\<lparr>assignedPages := Some [''p1'', ''p2'']\<rparr>], searchTerm = [],
           filterRole = AllRoles, loading = False\<rparr> ''u1'' ''p1'')) ''u1'' ''p1''))
     = [alice\<lparr>assignedPages := Some [''p2'', ''p1'']\<rparr>]"
  by (simp add: handleToggleAccess_def Let_def pagesOf_def alice_def)

text \<open>
  C4, as the code has it. \<open>handleToggleAccess\<close> does not look at the role. What keeps
  the assigned pages of an admin or a developer from being edited is the cell: its button
  is disabled and its click handler does not call \<open>handleToggleAccess\<close> for these two
  roles, so a click on such a cell leaves the whole state as it is and calls nothing.
\<close>

theorem clickCell_admin_developer:
  assumes "role u = Admin \<or> role u = Developer"
  shows "isDisabled u
         \<and> onClick assignThrows st u pageId = (st, [])
         \<and> clickCell assignThrows st u pageId = (st, [])"
  using assms by (simp add: isDisabled_def onClick_def clickCell_def)

theorem clickCell_admin_developer_witness:
  "isDisabled rootUser
   \<and> onClick False examplePanel rootUser ''p1'' = (examplePanel, [])
   \<and> clickCell False examplePanel rootUser ''p1'' = (examplePanel, [])"
proof -
  have r: "role rootUser = Admin \<or> role rootUser = Developer"
    by (simp add: rootUser_def)
  from clickCell_admin_developer [OF r] show ?thesis
    by blast
qed

text \<open>
  The claim C4 as it is written fails for \<open>handleToggleAccess\<close> itself: called for a
  developer, it edits the assigned pages.
\<close>

theorem handleToggleAccess_developer_counterexample:
  "role dana = Developer
   \<and> handleToggleAccess False examplePanel ''d1'' ''p3''
       = (examplePanel\<lparr>users := [alice, rootUser, dana\<lparr>assignedPages := Some []\<rparr>]\<rparr>,
          [AssignPagesToUser ''d1'' [], OnSuccess])
   \<and> dana\<lparr>assignedPages := Some []\<rparr> \<noteq> dana"
  by (simp add: handleToggleAccess_def Let_def pagesOf_def
      examplePanel_def alice_def rootUser_def dana_def)

section \<open>The filtered listing\<close>


text \<open>
  When the case mapping works unit by unit, containment after lower-casing both texts is
  the same as: some contiguous part of the text is equal to the search text up to case.
\<close>

lemma sublist_map_iff:
  "sublist (map f t) (map f s) = (\<exists>w. sublist w s \<and> map f w = map f t)"
proof
  assume "sublist (map f t) (map f s)"
  then obtain ps ss where "map f s = ps @ map f t @ ss"
    unfolding sublist_def by blast
  then have "\<exists>p r. s = p @ r \<and> ps = map f p \<and> map f t @ ss = map f r"
    by (simp only: map_eq_append_conv)
  then obtain p r where s: "s = p @ r" and "map f r = map f t @ ss"
    by auto
  then have "\<exists>w q. r = w @ q \<and> map f t = map f w \<and> ss = map f q"
    by (simp only: map_eq_append_conv)
  then obtain w q where r: "r = w @ q" and w: "map f w = map f t"
    by auto
  from s r have "s = p @ w @ q"
    by simp
  then have "sublist w s"
    unfolding sublist_def by blast
  with w show "\<exists>w. sublist w s \<and> map f w = map f t"
    by blast
next
  assume "\<exists>w. sublist w s \<and> map f w = map f t"
  then obtain w p q where "s = p @ w @ q" and "map f w = map f t"
    by (auto simp: sublist_def)
  then have "map f s = map f p @ map f t @ map f q"
    by simp
  then show "sublist (map f t) (map f s)"
    unfolding sublist_def by blast
qed



section \<open>The auto-save effect and the save status\<close>

lemma autoSaveEffect_frame:
  "components (autoSaveEffect st) = components st"
  "selectedComponent (autoSaveEffect st) = selectedComponent st"
  "timer (autoSaveEffect (autoSaveEffect st)) = None"
  by (simp_all add: autoSaveEffect_def Let_def)

lemma autoSaveEffect_status:
  "saveStatus (autoSaveEffect st)
     = (if components st \<noteq> [] \<and> saveStatus st = Unsaved then Saving else saveStatus st)"
  by (simp add: autoSaveEffect_def Let_def)

lemma settle_frame:
  "components (settle st) = components st"
  "selectedComponent (settle st) = selectedComponent st"
  by (simp_all add: settle_def Let_def autoSaveEffect_frame)

lemma settle_status:
  "saveStatus (settle st)
     = (if components st \<noteq> [] \<and> saveStatus st = Unsaved then Saving else saveStatus st)"
  by (simp add: settle_def Let_def autoSaveEffect_status autoSaveEffect_frame)

lemma handle_mutation_status:
  "isMutation ev \<Longrightarrow> saveStatus (handle upper pr ev st) = Unsaved"
  by (cases ev) (simp_all add: addComponent_def updateComponent_def deleteComponent_def Let_def)

lemma dispatch_mutation:
  "isMutation ev \<Longrightarrow> dispatch upper pr ev st = settle (handle upper pr ev st)"
  by (cases ev) simp_all

lemma updateComponent_nonempty:
  "components st \<noteq> [] \<Longrightarrow> components (dispatch upper pr (Update i p) st) \<noteq> []"
  by (simp add: settle_frame updateComponent_def)

lemma dispatch_timer:
  "isMutation ev \<Longrightarrow> timer (dispatch upper pr ev st) = None"
  by (simp add: dispatch_mutation settle_def Let_def autoSaveEffect_def)

text \<open>
  C5, as the code has it. Every mutation (add, update, delete) sets the status to
  \<open>unsaved\<close>. The move to \<open>saving\<close> is made by the body of the auto-save effect
  itself, in the run that follows the mutation, whenever the list of components is not
  empty: no time has to pass for it. The same run starts the timer of 1000 ms, and it is
  \<open>handleAutoSave\<close>, the move to \<open>saved\<close>, that waits for the timer. So three
  calls of \<open>updateComponent\<close> on a list that is not empty, each followed by its
  render, make three moves into \<open>saving\<close>, one after each call.
\<close>

theorem mutation_status:
  "(isMutation ev \<longrightarrow>
      saveStatus (handle upper pr ev st) = Unsaved
      \<and> saveStatus (dispatch upper pr ev st)
          = (if components (handle upper pr ev st) = [] then Unsaved else Saving))
   \<and> (components st \<noteq> [] \<and> saveStatus st = Unsaved \<longrightarrow>
        autoSaveEffect st = st\<lparr>saveStatus := Saving, timer := Some 1000\<rparr>)
   \<and> (components st \<noteq> [] \<longrightarrow>
        transitionsInto Saving
          (saveStatus st # statusTrace upper pr st [Update i1 p1, Update i2 p2, Update i3 p3]) = 3)"
proof (intro conjI impI)
  assume m: "isMutation ev"
  show "saveStatus (handle upper pr ev st) = Unsaved"
    using m by (rule handle_mutation_status)
  then show "saveStatus (dispatch upper pr ev st)
          = (if components (handle upper pr ev st) = [] then Unsaved else Saving)"
    by (simp add: dispatch_mutation [OF m] settle_status)
next
  assume "components st \<noteq> [] \<and> saveStatus st = Unsaved"
  then show "autoSaveEffect st = st\<lparr>saveStatus := Saving, timer := Some 1000\<rparr>"
    by (simp add: autoSaveEffect_def Let_def)
next
  assume n: "components st \<noteq> []"
  define s1 where "s1 = dispatch upper pr (Update i1 p1) st"
  define s2 where "s2 = dispatch upper pr (Update i2 p2) s1"
  define s3 where "s3 = dispatch upper pr (Update i3 p3) s2"
  have n1: "components s1 \<noteq> []"
    unfolding s1_def using n by (rule updateComponent_nonempty)
  have n2: "components s2 \<noteq> []"
    unfolding s2_def using n1 by (rule updateComponent_nonempty)
  have h: "saveStatus (handle upper pr (Update i p) s) = Unsaved" for i p s
    by (simp add: updateComponent_def)
  have d: "saveStatus (dispatch upper pr (Update i p) s) = Saving" if "components s \<noteq> []" for i p s
    using that by (simp add: settle_status updateComponent_def)
  have "statusTrace upper pr st [Update i1 p1, Update i2 p2, Update i3 p3]
          = [Unsaved, Saving, Unsaved, Saving, Unsaved, Saving]"
    using h d [OF n] d [OF n1] d [OF n2]
    unfolding s1_def s2_def by (simp del: handle.simps dispatch.simps)
  then show "transitionsInto Saving
          (saveStatus st # statusTrace upper pr st [Update i1 p1, Update i2 p2, Update i3 p3]) = 3"
    by simp
qed

theorem mutation_status_witness:
  "saveStatus (handle exampleUpper exampleProps (Update ''powerbi-main'' exampleUpdate) exampleEditor) = Unsaved
   \<and> saveStatus (dispatch exampleUpper exampleProps (Update ''powerbi-main'' exampleUpdate) exampleEditor) = Saving
   \<and> saveStatus (dispatch exampleUpper exampleProps (Delete ''powerbi-main'') exampleEditor) = Unsaved
   \<and> autoSaveEffect (exampleEditor\<lparr>saveStatus := Unsaved\<rparr>)
       = exampleEditor\<lparr>saveStatus := Saving, timer := Some 1000\<rparr>
   \<and> transitionsInto Saving
        (saveStatus exampleEditor # statusTrace exampleUpper exampleProps exampleEditor
           [Update ''powerbi-main'' exampleUpdate, Update ''powerbi-main'' exampleUpdate,
            Update ''powerbi-main'' exampleUpdate]) = 3"
proof -
  have c: "components exampleEditor \<noteq> []"
    by (simp add: exampleEditor_def initEditor_def defaultComponents_def examplePage_def truthy_def)
  have c': "components (exampleEditor\<lparr>saveStatus := Unsaved\<rparr>) \<noteq> []
            \<and> saveStatus (exampleEditor\<lparr>saveStatus := Unsaved\<rparr>) = Unsaved"
    using c by simp
  have u: "components (handle exampleUpper exampleProps (Update ''powerbi-main'' exampleUpdate) exampleEditor) \<noteq> []"
    using c by (simp add: updateComponent_def)
  have e: "components (handle exampleUpper exampleProps (Delete ''powerbi-main'') exampleEditor) = []"
    by (simp add: deleteComponent_def exampleEditor_def initEditor_def defaultComponents_def
        examplePage_def truthy_def mainComponent_def)
  have m1: "isMutation (Update ''powerbi-main'' exampleUpdate)"
    and m2: "isMutation (Delete ''powerbi-main'')"
    by simp_all
  show ?thesis
    using mutation_status [of "Update ''powerbi-main'' exampleUpdate" exampleUpper exampleProps exampleEditor
        "''powerbi-main''" exampleUpdate "''powerbi-main''" exampleUpdate "''powerbi-main''" exampleUpdate]
      mutation_status [of "Delete ''powerbi-main''" exampleUpper exampleProps exampleEditor]
      mutation_status [of "Delete ''powerbi-main''" exampleUpper exampleProps "exampleEditor\<lparr>saveStatus := Unsaved\<rparr>"]
      c c' u e m1 m2
    by (simp del: handle.simps dispatch.simps statusTrace.simps transitionsInto.simps)
qed

text \<open>
  The claim C5 as it is written fails: with no time passing at all, one update moves the
  status to \<open>saving\<close>, and three updates in a row move it there three times.
\<close>

theorem debounce_counterexample:
  "saveStatus (dispatch exampleUpper exampleProps (Update ''powerbi-main'' exampleUpdate) exampleEditor) = Saving
   \<and> transitionsInto Saving
        (saveStatus exampleEditor # statusTrace exampleUpper exampleProps exampleEditor
           [Update ''powerbi-main'' exampleUpdate, Update ''powerbi-main'' exampleUpdate,
            Update ''powerbi-main'' exampleUpdate]) = 3"
  by (simp add: settle_def autoSaveEffect_def updateComponent_def Let_def
      exampleEditor_def initEditor_def defaultComponents_def examplePage_def truthy_def)

section \<open>Identifiers made from the clock\<close>

lemma toString_nonempty: "toString n \<noteq> []"
  by (subst toString.simps) simp

lemma digitChar_inj:
  assumes "a < 10" and "b < 10" and "digitChar a = digitChar b"
  shows "a = b"
proof -
  have d: "distinct ''0123456789''" by simp
  have l: "length ''0123456789'' = 10" by simp
  from assms show ?thesis
    unfolding digitChar_def using nth_eq_iff_index_eq [OF d, of a b] l by simp
qed

lemma toString_inj: "toString m = toString n \<Longrightarrow> m = n"
proof (induction m arbitrary: n rule: toString.induct)
  case (1 m)
  show ?case
  proof (cases "m < 10")
    case True
    then have lm: "toString m = [digitChar m]"
      by (subst toString.simps) simp
    show ?thesis
    proof (cases "n < 10")
      case True
      then have "toString n = [digitChar n]"
        by (subst toString.simps) simp
      with lm "1.prems" have "digitChar m = digitChar n" by simp
      with \<open>m < 10\<close> \<open>n < 10\<close> show ?thesis by (rule digitChar_inj)
    next
      case False
      then have "toString n = toString (n div 10) @ [digitChar (n mod 10)]"
        by (subst toString.simps) simp
      with lm "1.prems" have "toString (n div 10) = []" by simp
      with toString_nonempty show ?thesis by blast
    qed
  next
    case False
    then have lm: "toString m = toString (m div 10) @ [digitChar (m mod 10)]"
      by (subst toString.simps) simp
    show ?thesis
    proof (cases "n < 10")
      case True
      then have "toString n = [digitChar n]"
        by (subst toString.simps) simp
      with lm "1.prems" have "toString (m div 10) = []" by simp
      with toString_nonempty show ?thesis by blast
    next
      case nf: False
      then have "toString n = toString (n div 10) @ [digitChar (n mod 10)]"
        by (subst toString.simps) simp
      with lm "1.prems" have e: "toString (m div 10) = toString (n div 10)"
        and d: "digitChar (m mod 10) = digitChar (n mod 10)"
        by simp_all
      from "1.IH" [OF False e] have q: "m div 10 = n div 10" .
      have "m mod 10 = n mod 10"
        by (rule digitChar_inj [OF _ _ d]) simp_all
      with q show ?thesis
        by (metis div_mult_mod_eq)
    qed
  qed
qed

lemma toString_digits: "set (toString n) \<subseteq> set ''0123456789''"
proof (induction n rule: toString.induct)
  case (1 n)
  have d: "digitChar k \<in> set ''0123456789''" if "k < 10" for k
    unfolding digitChar_def using that by (intro nth_mem) simp
  show ?case
  proof (cases "n < 10")
    case True
    then show ?thesis
      by (subst toString.simps) (use d [of n] in simp)
  next
    case False
    have "digitChar (n mod 10) \<in> set ''0123456789''"
      by (rule d) simp
    with "1.IH" [OF False] False show ?thesis
      by (subst toString.simps) simp
  qed
qed

lemma main_not_digits: "ty @ ''-main'' \<noteq> toString n"
proof
  assume a: "ty @ ''-main'' = toString n"
  have "CHR ''m'' \<in> set (ty @ ''-main'')" by simp
  with a have "CHR ''m'' \<in> set (toString n)" by simp
  with toString_digits [of n] have "CHR ''m'' \<in> set ''0123456789''" by blast
  then show False by simp
qed

lemma toString_5: "toString 5 = ''5''"
  by (simp add: toString.simps digitChar_def)

section \<open>Adding a component\<close>

lemma defaultComponents_ids:
  "comp_id ` set (defaultComponents p) \<subseteq> {''powerbi-main'', ''spreadsheet-main'', ''html-main''}"
  by (auto simp: defaultComponents_def mainComponent_def)


text \<open>
  C6, as the code has it. \<open>addComponent\<close> appends one component with the size that
  belongs to its type (button 120 by 40, text 200 by 60, every other type 300 by 200).
  Its id is the decimal string of \<open>Date.now()\<close>. The id differs from all ids in
  the list when every one of them is an id of a component the page starts with or the
  string of an earlier clock value; nothing compares it with the ids in the list.
\<close>

theorem addComponent_appends:
  "\<exists>c. components (addComponent upper pr now r1 r2 ty st) = components st @ [c]
       \<and> comp_id c = toString now
       \<and> comp_type c = ty
       \<and> width c = (if ty = ''button'' then 120 else if ty = ''text'' then 200 else 300)
       \<and> height c = (if ty = ''button'' then 40 else if ty = ''text'' then 60 else 200)
       \<and> ((\<forall>d \<in> set (components st).
              (\<exists>t<now. comp_id d = toString t)
              \<or> comp_id d \<in> {''powerbi-main'', ''spreadsheet-main'', ''html-main''})
            \<longrightarrow> comp_id c \<notin> comp_id ` set (components st))"
proof -
  have fresh: "toString now \<notin> comp_id ` set (components st)"
    if h: "\<forall>d \<in> set (components st).
              (\<exists>t<now. comp_id d = toString t)
              \<or> comp_id d \<in> {''powerbi-main'', ''spreadsheet-main'', ''html-main''}"
  proof
    assume "toString now \<in> comp_id ` set (components st)"
    then obtain d where d: "d \<in> set (components st)" and e: "comp_id d = toString now"
      by auto
    from h d consider t where "t < now" and "comp_id d = toString t"
      | "comp_id d \<in> {''powerbi-main'', ''spreadsheet-main'', ''html-main''}"
      by blast
    then show False
    proof cases
      case 1
      with e have "toString t = toString now" by simp
      then have "t = now" by (rule toString_inj)
      with 1 show False by simp
    next
      case 2
      with e main_not_digits [of "''powerbi''" now] main_not_digits [of "''spreadsheet''" now]
        main_not_digits [of "''html''" now]
      show False by auto
    qed
  qed
  show ?thesis
    unfolding addComponent_def Let_def using fresh by simp
qed

theorem addComponent_appends_witness:
  "\<exists>c. components (addComponent exampleUpper exampleProps 7 0 0 ''button''
                      (addComponent exampleUpper exampleProps 5 0 0 ''text'' exampleEditor))
          = components (addComponent exampleUpper exampleProps 5 0 0 ''text'' exampleEditor) @ [c]
       \<and> comp_id c = ''7'' \<and> width c = 120 \<and> height c = 40
       \<and> comp_id c \<notin> {''powerbi-main'', ''5''}"
proof -
  define st1 where "st1 = addComponent exampleUpper exampleProps 5 0 0 ''text'' exampleEditor"
  have cs: "components exampleEditor = [mainComponent ''powerbi-main'' ''powerbi'' ''#0078d4'' examplePage
        (page_embedUrl examplePage) None]"
    by (simp add: exampleEditor_def initEditor_def defaultComponents_def examplePage_def truthy_def)
  have "map comp_id (components st1) = [''powerbi-main'', ''5'']"
    by (simp add: st1_def addComponent_def cs mainComponent_def toString_5)
  then have "set (map comp_id (components st1)) = {''powerbi-main'', ''5''}"
    by simp
  then have ids: "comp_id ` set (components st1) = {''powerbi-main'', ''5''}"
    by simp
  have five: "\<exists>t<7. ''5'' = toString t"
    using toString_5 by (intro exI [of _ 5]) simp
  have h: "\<forall>d \<in> set (components st1).
              (\<exists>t<7. comp_id d = toString t)
              \<or> comp_id d \<in> {''powerbi-main'', ''spreadsheet-main'', ''html-main''}"
  proof
    fix d assume "d \<in> set (components st1)"
    then have "comp_id d \<in> {''powerbi-main'', ''5''}"
      using ids by blast
    then have "comp_id d = ''powerbi-main'' \<or> comp_id d = ''5''"
      by simp
    then show "(\<exists>t<7. comp_id d = toString t)
              \<or> comp_id d \<in> {''powerbi-main'', ''spreadsheet-main'', ''html-main''}"
    proof
      assume "comp_id d = ''powerbi-main''"
      then show ?thesis by simp
    next
      assume e: "comp_id d = ''5''"
      from five show ?thesis
        unfolding e by (rule disjI1)
    qed
  qed
  have s7: "toString 7 = ''7''"
    by (simp add: toString.simps digitChar_def)
  from addComponent_appends [of exampleUpper exampleProps 7 0 0 "''button''" st1]
  obtain c where c: "components (addComponent exampleUpper exampleProps 7 0 0 ''button'' st1) = components st1 @ [c]"
    and i: "comp_id c = toString 7"
    and w: "width c = (if ''button'' = ''button'' then 120 else if ''button'' = ''text'' then 200 else 300)"
    and g: "height c = (if ''button'' = ''button'' then 40 else if ''button'' = ''text'' then 60 else 200)"
    and f: "(\<forall>d \<in> set (components st1).
              (\<exists>t<7. comp_id d = toString t)
              \<or> comp_id d \<in> {''powerbi-main'', ''spreadsheet-main'', ''html-main''})
            \<longrightarrow> comp_id c \<notin> comp_id ` set (components st1)"
    by blast
  from f h have "comp_id c \<notin> comp_id ` set (components st1)" by blast
  then have n: "comp_id c \<notin> {''powerbi-main'', ''5''}"
    unfolding ids .
  have w': "width c = 120" and g': "height c = 40"
    using w g by simp_all
  from c i n w' g' show ?thesis
    unfolding st1_def [symmetric] s7 by blast
qed

text \<open>
  The claim C6 as it is written fails when the clock gives the same value twice: the
  second component gets the id of the first.
\<close>

theorem addComponent_same_millisecond_counterexample:
  "map comp_id (components (addComponent exampleUpper exampleProps 1000 0 0 ''button''
                  (addComponent exampleUpper exampleProps 1000 0 0 ''text'' exampleEditor)))
     = [''powerbi-main'', ''1000'', ''1000'']
   \<and> comp_id (last (components (addComponent exampleUpper exampleProps 1000 0 0 ''button''
                  (addComponent exampleUpper exampleProps 1000 0 0 ''text'' exampleEditor))))
       \<in> comp_id ` set (components (addComponent exampleUpper exampleProps 1000 0 0 ''text'' exampleEditor))"
  by (simp add: addComponent_def exampleEditor_def initEditor_def defaultComponents_def
      examplePage_def truthy_def mainComponent_def toString.simps digitChar_def)

section \<open>Updating and deleting a component\<close>

text \<open>
  C9. \<open>updateComponent\<close> keeps the number of components and their positions, leaves
  every component with another id as it is, and leaves the whole list as it is when no
  component has the given id. The effect that runs afterwards does not touch the list.
\<close>

theorem updateComponent_frame:
  "length (components (updateComponent i p st)) = length (components st)
   \<and> (\<forall>k < length (components st).
        comp_id (components st ! k) \<noteq> i \<longrightarrow>
        components (updateComponent i p st) ! k = components st ! k)
   \<and> (i \<notin> comp_id ` set (components st) \<longrightarrow>
        components (updateComponent i p st) = components st)
   \<and> components (dispatch upper pr (Update i p) st) = components (updateComponent i p st)"
proof -
  have "map (\<lambda>comp. if comp_id comp = i then merge comp p else comp) cs = cs"
    if "i \<notin> comp_id ` set cs" for cs
    using that by (induction cs) auto
  then show ?thesis
    by (simp add: updateComponent_def settle_frame)
qed

theorem updateComponent_frame_witness:
  "length (components (updateComponent ''7'' exampleUpdate
             (addComponent exampleUpper exampleProps 7 0 0 ''button'' exampleEditor))) = 2
   \<and> components (updateComponent ''7'' exampleUpdate
             (addComponent exampleUpper exampleProps 7 0 0 ''button'' exampleEditor)) ! 0
       = components exampleEditor ! 0
   \<and> components (updateComponent ''zz'' exampleUpdate exampleEditor) = components exampleEditor"
proof -
  define st1 where "st1 = addComponent exampleUpper exampleProps 7 0 0 ''button'' exampleEditor"
  have s7: "toString 7 = ''7''"
    by (simp add: toString.simps digitChar_def)
  have cs: "components exampleEditor = [mainComponent ''powerbi-main'' ''powerbi'' ''#0078d4'' examplePage
        (page_embedUrl examplePage) None]"
    by (simp add: exampleEditor_def initEditor_def defaultComponents_def examplePage_def truthy_def)
  have l: "length (components st1) = 2" and k: "(0::nat) < length (components st1)"
    and z: "components st1 ! 0 = components exampleEditor ! 0"
    and o: "comp_id (components st1 ! 0) \<noteq> ''7''"
    by (simp_all add: st1_def addComponent_def cs mainComponent_def)
  have n: "''zz'' \<notin> comp_id ` set (components exampleEditor)"
    by (simp add: cs mainComponent_def)
  from updateComponent_frame [of "''7''" exampleUpdate st1] updateComponent_frame [of "''zz''" exampleUpdate exampleEditor]
    l k z o n
  show ?thesis
    unfolding st1_def [symmetric] by simp
qed

text \<open>
  C10. After \<open>deleteComponent\<close> no component is selected, whatever was selected
  before and whether or not a component had the given id; the effect that runs afterwards
  does not select anything.
\<close>

theorem deleteComponent_clears_selection:
  "selectedComponent (deleteComponent pr i st) = None
   \<and> selectedComponent (dispatch upper pr (Delete i) st) = None"
  by (simp add: deleteComponent_def settle_frame)

theorem deleteComponent_clears_selection_witness:
  "selectedComponent (deleteComponent exampleProps ''zz''
      (exampleEditor\<lparr>selectedComponent := Some ''powerbi-main''\<rparr>)) = None
   \<and> components (deleteComponent exampleProps ''zz''
      (exampleEditor\<lparr>selectedComponent := Some ''powerbi-main''\<rparr>)) = components exampleEditor"
proof -
  have "components (deleteComponent exampleProps ''zz''
      (exampleEditor\<lparr>selectedComponent := Some ''powerbi-main''\<rparr>)) = components exampleEditor"
    by (simp add: deleteComponent_def exampleEditor_def initEditor_def defaultComponents_def
        examplePage_def truthy_def mainComponent_def)
  with deleteComponent_clears_selection [of exampleProps "''zz''"
      "exampleEditor\<lparr>selectedComponent := Some ''powerbi-main''\<rparr>"]
  show ?thesis by simp
qed

end
